theory Spec2Isabelle
  imports Main "HOL-Library.Word"
begin

unbundle bit_operations_syntax

section \<open>Machine types\<close>

text \<open>
  \<open>unsigned char\<close> is an 8-bit word. C \<open>int\<close> is a 32-bit word read in two's
  complement by \<open>sint\<close>; comparisons of \<open>int\<close> values are written on \<open>sint\<close>.
\<close>

type_synonym u8 = "8 word"
type_synonym s32 = "32 word"

section \<open>cid.c: the add-CID octet\<close>

text \<open>
  \<^verbatim>\<open>unsigned char c_add_cid(int cid)
  { unsigned char ret_value = 0xe0; ret_value |= (cid & 0x0f); return ret_value; }\<close>
  The compound assignment promotes \<open>ret_value\<close> to \<open>int\<close>, ors, and converts the
  result back to \<open>unsigned char\<close>.
\<close>

definition c_add_cid :: "s32 \<Rightarrow> u8" where
  "c_add_cid cid =
     (let ret_value = (0xe0 :: u8);
          ret_value = ucast ((ucast ret_value :: s32) OR (cid AND 0x0f))
      in ret_value)"

section \<open>cid.c: the CID part of a ROHC packet\<close>

text \<open>
  The headers that declare \<open>struct c_context\<close>, the compressor and its medium are not
  among the sources; the records below carry the fields that \<open>code_cid_values\<close>
  reads (\<open>context->cid\<close> and \<open>context->compressor->medium.cid_type\<close>). The channel
  setting has the two values the source distinguishes: \<open>SMALL_CID\<close> and anything
  else, which the source comments as large CID.
\<close>

datatype rohc_cid_type = LARGE_CID | SMALL_CID

record rohc_medium =
  cid_type :: rohc_cid_type

record rohc_comp =
  medium :: rohc_medium

record c_context =
  cid :: s32
  compressor :: rohc_comp

text \<open>
  \<open>dest\<close> is a bare pointer: the memory it points to is a store from byte offsets to
  octets. The function receives \<open>dest_size\<close> beside it. \<open>store_bytes\<close> is the effect
  of a callee that is handed \<open>&dest[pos]\<close> and writes the octets \<open>bs\<close> from there on.
\<close>

type_synonym buffer = "nat \<Rightarrow> u8"

definition store_bytes :: "buffer \<Rightarrow> nat \<Rightarrow> u8 list \<Rightarrow> buffer" where
  "store_bytes dest pos bs =
     (\<lambda>i. if pos \<le> i \<and> i < pos + length bs then bs ! (i - pos) else dest i)"

text \<open>
  What a call leaves behind: the memory behind \<open>dest\<close>, the value stored through
  the out-pointer \<open>first_position\<close> (every path of the function assigns it), and
  the returned \<open>counter\<close>.
\<close>

record code_cid_result =
  dest_after :: buffer
  first_position :: s32
  returned :: s32

text \<open>
  \<open>code_cid_values\<close> of cid.c. The two helpers it calls, \<open>c_encodeSdvl\<close> and
  \<open>c_bytesSdvl\<close>, are defined in a file that is not among the sources, so they are
  parameters: \<open>encodeSdvl value length\<close> is the list of octets that
  \<open>c_encodeSdvl(ptr, value, length)\<close> writes from \<open>ptr\<close> on (its return value is
  discarded by the caller), and \<open>bytesSdvl value length\<close> is the \<open>int\<close> that
  \<open>c_bytesSdvl(value, length)\<close> returns. The \<open>rohc_debugf\<close> traces only read and
  print; they are left out. \<open>counter\<close> is threaded as in the source.
\<close>

definition code_cid_values ::
  "(s32 \<Rightarrow> s32 \<Rightarrow> u8 list) \<Rightarrow> (s32 \<Rightarrow> s32 \<Rightarrow> s32) \<Rightarrow>
   c_context \<Rightarrow> buffer \<Rightarrow> s32 \<Rightarrow> code_cid_result" where
  "code_cid_values encodeSdvl bytesSdvl context dest dest_size =
     (let counter = (0 :: s32) in
      if cid_type (medium (compressor context)) = SMALL_CID then
        if 0 < sint (cid context) then
          \<lparr> dest_after = dest (nat (sint counter) := c_add_cid (cid context)),
            first_position = 1,
            returned = 2 \<rparr>
        else
          \<lparr> dest_after = dest,
            first_position = 0,
            returned = 1 \<rparr>
      else
        let counter = counter + 1;
            dest = store_bytes dest (nat (sint counter)) (encodeSdvl (cid context) (- 1));
            len = bytesSdvl (cid context) (- 1);
            counter = counter + len
        in \<lparr> dest_after = dest,
             first_position = 0,
             returned = counter \<rparr>)"

section \<open>The SDVL codec\<close>

text \<open>
  Modelled from the spec: the SDVL codec. \<open>c_encodeSdvl\<close>, \<open>c_bytesSdvl\<close> and the
  SDVL decoder are defined in a file that is not among the sources; cid.c only calls
  the first two. The three definitions below follow the spec's section 4.1: the leading
  bits of the first octet give the length, \<open>0xxxxxxx\<close> a 7-bit value in one octet,
  \<open>10xxxxxx\<close> a 14-bit value in two, \<open>110xxxxx\<close> a 21-bit value in three,
  \<open>111xxxxx\<close> a 29-bit value in four, most significant octet first (the spec's
  example encodes 300 as \<open>0x81 0x2C\<close>). A value of \<open>2^29\<close> or more has no
  encoding (\<open>None\<close>); decoding fails (\<open>None\<close>) when the buffer is shorter than the
  prefix implies, and otherwise returns the value and the number of octets read.
\<close>

definition c_bytesSdvl :: "nat \<Rightarrow> nat option" where
  "c_bytesSdvl v =
     (if v < 2 ^ 7 then Some 1
      else if v < 2 ^ 14 then Some 2
      else if v < 2 ^ 21 then Some 3
      else if v < 2 ^ 29 then Some 4
      else None)"

definition c_encodeSdvl :: "nat \<Rightarrow> u8 list option" where
  "c_encodeSdvl v =
     (if v < 2 ^ 7 then
        Some [word_of_nat v]
      else if v < 2 ^ 14 then
        Some [0x80 OR word_of_nat (drop_bit 8 v), word_of_nat v]
      else if v < 2 ^ 21 then
        Some [0xC0 OR word_of_nat (drop_bit 16 v), word_of_nat (drop_bit 8 v),
              word_of_nat v]
      else if v < 2 ^ 29 then
        Some [0xE0 OR word_of_nat (drop_bit 24 v), word_of_nat (drop_bit 16 v),
              word_of_nat (drop_bit 8 v), word_of_nat v]
      else None)"

definition sdvl_decode :: "u8 list \<Rightarrow> (nat \<times> nat) option" where
  "sdvl_decode bs =
     (case bs of
        [] \<Rightarrow> None
      | b0 # rest \<Rightarrow>
          if b0 AND 0x80 = 0 then
            Some (unat (b0 AND 0x7F), 1)
          else if b0 AND 0xC0 = 0x80 then
            (case rest of
               b1 # _ \<Rightarrow> Some (push_bit 8 (unat (b0 AND 0x3F)) OR unat b1, 2)
             | _ \<Rightarrow> None)
          else if b0 AND 0xE0 = 0xC0 then
            (case rest of
               b1 # b2 # _ \<Rightarrow>
                 Some (push_bit 16 (unat (b0 AND 0x1F)) OR push_bit 8 (unat b1)
                       OR unat b2, 3)
             | _ \<Rightarrow> None)
          else
            (case rest of
               b1 # b2 # b3 # _ \<Rightarrow>
                 Some (push_bit 24 (unat (b0 AND 0x1F)) OR push_bit 16 (unat b1)
                       OR push_bit 8 (unat b2) OR unat b3, 4)
             | _ \<Rightarrow> None))"

section \<open>comp_list.h and d_generic.h: the list decompressor\<close>

text \<open>
  \<^verbatim>\<open>#define MAX_ITEM 15
  #if MAX_ITEM <= 7
    #error "translation table must be larger enough for indexes stored on 3 bits"
  #endif
  #define LIST_COMP_WINDOW 100\<close>
  The preprocessor test is a function of the constant: \<open>Some\<close> message when the build
  stops, \<open>None\<close> when it goes on.
\<close>

definition MAX_ITEM :: nat where
  "MAX_ITEM = 15"

definition MAX_ITEM_check :: "nat \<Rightarrow> string option" where
  "MAX_ITEM_check max_item =
     (if max_item \<le> 7
      then Some ''translation table must be larger enough for indexes stored on 3 bits''
      else None)"

definition LIST_COMP_WINDOW :: nat where
  "LIST_COMP_WINDOW = 100"

text \<open>
  A C array of declared size \<open>N\<close> holds exactly \<open>N\<close> elements: \<open>T a[LIST_COMP_WINDOW]\<close>
  and \<open>T a[MAX_ITEM]\<close> are the types of the lists of that length.
\<close>

typedef 'a list_comp_window = "{xs :: 'a list. length xs = LIST_COMP_WINDOW}"
  morphisms window_entries Abs_list_comp_window
  by (rule exI [of _ "replicate LIST_COMP_WINDOW undefined"]) simp

typedef 'a item_table = "{xs :: 'a list. length xs = MAX_ITEM}"
  morphisms item_slots Abs_item_table
  by (rule exI [of _ "replicate MAX_ITEM undefined"]) simp

text \<open>
  The structures of comp_list.h. A pointer is an \<open>option\<close> (\<open>None\<close> for \<open>NULL\<close>); the
  doubly linked chain behind \<open>first_elt\<close> is the list of its elements in order.
\<close>

datatype ext_header_version = HBH | DEST | RTHDR | AH

fun ext_header_number :: "ext_header_version \<Rightarrow> nat" where
  "ext_header_number HBH = 0"
| "ext_header_number DEST = 60"
| "ext_header_number RTHDR = 43"
| "ext_header_number AH = 51"

record rohc_list_item =
  item_type :: ext_header_version
  item_length :: nat
  item_data :: "u8 list"

record list_elt =
  item :: "rohc_list_item option"
  index_table :: s32

record c_list =
  gen_id :: s32
  first_elt :: "list_elt list"

record d_translation =
  known :: s32
  item :: "rohc_list_item option"

text \<open>
  \<open>struct list_decomp\<close> of d_generic.h, its data members in declaration order (the
  five handler pointers that follow them are left out).
\<close>

record list_decomp =
  ref_list :: "c_list option"
  list_table :: "c_list option list_comp_window"
  based_table :: "rohc_list_item item_table"
  trans_table :: "d_translation item_table"
  counter_list :: s32
  counter :: s32
  list_decomp :: s32
  ref_ok :: s32
  size_ext :: s32

section \<open>Properties of the add-CID octet\<close>

lemma low_nibble_mask_s32: "(0x0f :: s32) = mask 4"
  by (simp add: mask_eq_exp_minus_1)

lemma low_nibble_mask_u8: "(0x0f :: u8) = mask 4"
  by (simp add: mask_eq_exp_minus_1)

lemma high_bits_u8: "(0xe0 :: u8) = push_bit 5 (mask 3)"
  by (simp add: mask_eq_exp_minus_1)

lemma add_cid_top_u8: "(0xef :: u8) = push_bit 5 (mask 3) OR mask 4"
  by (simp add: mask_eq_exp_minus_1)

lemma c_add_cid_or: "c_add_cid c = 0xe0 OR ucast (c AND 0x0f)"
  unfolding c_add_cid_def Let_def
  by (rule bit_word_eqI) (auto simp add: bit_simps)

lemma c_add_cid_high_nibble: "drop_bit 4 (c_add_cid c) = 0xe"
proof -
  have e: "(0xe :: u8) = drop_bit 4 (push_bit 5 (mask 3))"
    by (simp add: mask_eq_exp_minus_1)
  show ?thesis
    unfolding c_add_cid_or low_nibble_mask_s32 high_bits_u8 e
    by (rule bit_word_eqI) (auto simp add: bit_simps)
qed

lemma c_add_cid_low_nibble: "c_add_cid c AND 0x0f = ucast (c AND 0x0f)"
  unfolding c_add_cid_or low_nibble_mask_s32 low_nibble_mask_u8 high_bits_u8
  by (rule bit_word_eqI) (auto simp add: bit_simps)

lemma c_add_cid_lower: "0xe0 \<le> c_add_cid c"
  unfolding c_add_cid_or by (rule le_word_or2)

lemma c_add_cid_upper: "c_add_cid c \<le> 0xef"
proof -
  have "c_add_cid c AND 0xef = c_add_cid c"
    unfolding c_add_cid_or low_nibble_mask_s32 high_bits_u8 add_cid_top_u8
    by (rule bit_word_eqI) (auto simp add: bit_simps)
  then show ?thesis
    by (metis word_and_le1)
qed

lemma low_nibble_of_small:
  fixes c :: s32
  assumes "0 \<le> sint c" and "sint c \<le> 15"
  shows "c AND 0x0f = c"
proof -
  have "uint c = take_bit 32 (sint c)"
    by (simp add: uint_sint)
  also have "\<dots> = sint c"
    using assms by (simp add: take_bit_int_eq_self)
  finally have "uint c = sint c" .
  then have "take_bit 4 (uint c) = uint c"
    using assms by (simp add: take_bit_int_eq_self)
  then show ?thesis
    unfolding low_nibble_mask_s32 by (simp add: and_mask_bintr)
qed

lemma low_nibble_cong:
  fixes a b :: s32
  assumes "sint a mod 16 = sint b mod 16"
  shows "a AND 0x0f = b AND 0x0f"
proof -
  from assms have "take_bit 4 (sint a) = take_bit 4 (sint b)"
    by (simp add: take_bit_eq_mod)
  then have "take_bit 4 (take_bit 32 (sint a)) = take_bit 4 (take_bit 32 (sint b))"
    by simp
  then have "take_bit 4 (uint a) = take_bit 4 (uint b)"
    by (simp add: uint_sint)
  then show ?thesis
    unfolding low_nibble_mask_s32 by (simp add: and_mask_bintr)
qed

text \<open>
  C1. For every CID \<open>c\<close> in \<open>[0,15]\<close> the octet computed by \<open>c_add_cid\<close> is
  \<open>0xE0 | (c & 0x0F)\<close>: its high nibble is \<open>1110\<close> and its low nibble is \<open>c\<close>.
\<close>

theorem c_add_cid_small_cid:
  assumes "0 \<le> sint c" and "sint c \<le> 15"
  shows "c_add_cid c = 0xe0 OR ucast (c AND 0x0f)
       \<and> drop_bit 4 (c_add_cid c) = 0xe
       \<and> c_add_cid c AND 0x0f = ucast c"
proof -
  have low: "c AND 0x0f = c"
    using assms by (rule low_nibble_of_small)
  have "c_add_cid c AND 0x0f = ucast c"
    using c_add_cid_low_nibble [of c] by (simp only: low)
  then show ?thesis
    using c_add_cid_or [of c] c_add_cid_high_nibble [of c] by blast
qed

theorem c_add_cid_small_cid_witness:
  "0 \<le> sint (5 :: s32) \<and> sint (5 :: s32) \<le> 15
   \<and> c_add_cid 5 = 0xe5
   \<and> drop_bit 4 (c_add_cid 5) = 0xe
   \<and> c_add_cid 5 AND 0x0f = 5"
  using c_add_cid_small_cid [of 5] by (simp add: c_add_cid_def)

text \<open>
  C8. For every \<open>int\<close> argument, also above 15 and negative, \<open>c_add_cid\<close> returns an
  octet in \<open>[0xE0, 0xEF]\<close>; only the low four bits of the argument count, so two
  arguments congruent modulo 16 give the same octet.
\<close>

theorem c_add_cid_any_int:
  "0xe0 \<le> c_add_cid c \<and> c_add_cid c \<le> 0xef
   \<and> c_add_cid c = c_add_cid (c AND 0x0f)
   \<and> (sint c mod 16 = sint c' mod 16 \<longrightarrow> c_add_cid c = c_add_cid c')"
proof -
  have "c_add_cid c = c_add_cid (c AND 0x0f)"
    unfolding c_add_cid_or by simp
  moreover have "c_add_cid c = c_add_cid c'" if "sint c mod 16 = sint c' mod 16"
    unfolding c_add_cid_or using low_nibble_cong [OF that] by simp
  ultimately show ?thesis
    using c_add_cid_lower [of c] c_add_cid_upper [of c] by blast
qed

theorem c_add_cid_any_int_witness:
  "sint (- 1 :: s32) mod 16 = sint (31 :: s32) mod 16
   \<and> sint (- 1 :: s32) < 0
   \<and> c_add_cid (- 1) = 0xef \<and> c_add_cid 31 = 0xef
   \<and> (0xe0 :: u8) \<le> c_add_cid (- 1) \<and> c_add_cid (- 1) \<le> 0xef"
  using c_add_cid_any_int [of "- 1" 31] by (simp add: c_add_cid_def)

section \<open>Properties of the CID part\<close>

lemma store_bytes_before: "i < pos \<Longrightarrow> store_bytes dest pos bs i = dest i"
  by (simp add: store_bytes_def)

lemma store_bytes_inside: "i < length bs \<Longrightarrow> store_bytes dest pos bs (pos + i) = bs ! i"
  by (simp add: store_bytes_def)

text \<open>
  C2. On a small-CID channel with the context's CID in \<open>[1,15]\<close>, \<open>code_cid_values\<close>
  writes the add-CID octet \<open>0xE0 | (cid & 0x0F)\<close> at position 0 of the destination,
  stores 1 through \<open>first_position\<close> (the type octet follows the add-CID octet) and
  returns 2.
\<close>

theorem code_cid_values_small_cid_add_cid:
  assumes "cid_type (medium (compressor context)) = SMALL_CID"
    and "1 \<le> sint (cid context)" and "sint (cid context) \<le> 15"
  shows "dest_after (code_cid_values encodeSdvl bytesSdvl context dest dest_size) 0
           = 0xe0 OR ucast (cid context AND 0x0f)
       \<and> first_position (code_cid_values encodeSdvl bytesSdvl context dest dest_size) = 1
       \<and> returned (code_cid_values encodeSdvl bytesSdvl context dest dest_size) = 2"
  using assms by (simp add: code_cid_values_def c_add_cid_or)

theorem code_cid_values_small_cid_add_cid_witness:
  "(let context = \<lparr> cid = 5, compressor = \<lparr> medium = \<lparr> cid_type = SMALL_CID \<rparr> \<rparr> \<rparr>;
        r = code_cid_values (\<lambda>v l. []) (\<lambda>v l. 0) context (\<lambda>i. 0) 16
    in cid_type (medium (compressor context)) = SMALL_CID
     \<and> 1 \<le> sint (cid context) \<and> sint (cid context) \<le> 15
     \<and> dest_after r 0 = 0xe5 \<and> first_position r = 1 \<and> returned r = 2)"
  using code_cid_values_small_cid_add_cid
    [of "\<lparr> cid = 5, compressor = \<lparr> medium = \<lparr> cid_type = SMALL_CID \<rparr> \<rparr> \<rparr>"
        "\<lambda>v l. []" "\<lambda>v l. 0" "\<lambda>i. 0" 16]
  by (simp add: Let_def)

text \<open>
  C3. On a small-CID channel with the context's CID equal to 0, \<open>code_cid_values\<close>
  emits no add-CID octet: it stores 0 through \<open>first_position\<close> and returns 1, which
  reserves the position of the type octet only.
\<close>

theorem code_cid_values_small_cid_zero:
  assumes "cid_type (medium (compressor context)) = SMALL_CID"
    and "cid context = 0"
  shows "first_position (code_cid_values encodeSdvl bytesSdvl context dest dest_size) = 0
       \<and> returned (code_cid_values encodeSdvl bytesSdvl context dest dest_size) = 1
       \<and> dest_after (code_cid_values encodeSdvl bytesSdvl context dest dest_size) 0 = dest 0"
  using assms by (simp add: code_cid_values_def)

theorem code_cid_values_small_cid_zero_witness:
  "(let context = \<lparr> cid = 0, compressor = \<lparr> medium = \<lparr> cid_type = SMALL_CID \<rparr> \<rparr> \<rparr>;
        r = code_cid_values (\<lambda>v l. []) (\<lambda>v l. 0) context (\<lambda>i. 0x55) 16
    in cid_type (medium (compressor context)) = SMALL_CID \<and> cid context = 0
     \<and> first_position r = 0 \<and> returned r = 1 \<and> dest_after r 0 = 0x55)"
  using code_cid_values_small_cid_zero
    [of "\<lparr> cid = 0, compressor = \<lparr> medium = \<lparr> cid_type = SMALL_CID \<rparr> \<rparr> \<rparr>"
        "\<lambda>v l. []" "\<lambda>v l. 0" "\<lambda>i. 0x55" 16]
  by (simp add: Let_def)

text \<open>
  C10. On a small-CID channel with the context's CID equal to 0, \<open>code_cid_values\<close>
  leaves every octet of the destination unchanged; all it does is store 0 through
  \<open>first_position\<close> and return 1.
\<close>

theorem code_cid_values_zero_cid_keeps_dest:
  assumes "cid_type (medium (compressor context)) = SMALL_CID"
    and "cid context = 0"
  shows "code_cid_values encodeSdvl bytesSdvl context dest dest_size
           = \<lparr> dest_after = dest, first_position = 0, returned = 1 \<rparr>
       \<and> (\<forall>i. dest_after (code_cid_values encodeSdvl bytesSdvl context dest dest_size) i = dest i)"
  using assms by (simp add: code_cid_values_def)

theorem code_cid_values_zero_cid_keeps_dest_witness:
  "(let context = \<lparr> cid = 0, compressor = \<lparr> medium = \<lparr> cid_type = SMALL_CID \<rparr> \<rparr> \<rparr>;
        dest = (\<lambda>i. if i = 0 then 0x11 else 0x22);
        r = code_cid_values (\<lambda>v l. [0xff]) (\<lambda>v l. 1) context dest 4
    in cid_type (medium (compressor context)) = SMALL_CID \<and> cid context = 0
     \<and> r = \<lparr> dest_after = dest, first_position = 0, returned = 1 \<rparr>
     \<and> dest_after r 0 = 0x11 \<and> dest_after r 1 = 0x22)"
  using code_cid_values_zero_cid_keeps_dest
    [of "\<lparr> cid = 0, compressor = \<lparr> medium = \<lparr> cid_type = SMALL_CID \<rparr> \<rparr> \<rparr>"
        "\<lambda>v l. [0xff]" "\<lambda>v l. 1" "\<lambda>i. if i = 0 then 0x11 else 0x22" 4]
  by (simp add: Let_def)

text \<open>
  C9. The octets written by \<open>code_cid_values\<close>, the value stored through
  \<open>first_position\<close> and the returned counter do not depend on \<open>dest_size\<close>: two
  calls that differ in \<open>dest_size\<close> only have the same result, whatever the context,
  the destination, the CID and the two SDVL helpers are.
\<close>

theorem code_cid_values_ignores_dest_size:
  "code_cid_values encodeSdvl bytesSdvl context dest dest_size
     = code_cid_values encodeSdvl bytesSdvl context dest dest_size'"
  by (simp add: code_cid_values_def)

lemma code_cid_values_large_unfold:
  assumes "cid_type (medium (compressor context)) \<noteq> SMALL_CID"
  shows "code_cid_values encodeSdvl bytesSdvl context dest dest_size
           = \<lparr> dest_after = store_bytes dest 1 (encodeSdvl (cid context) (- 1)),
               first_position = 0,
               returned = 1 + bytesSdvl (cid context) (- 1) \<rparr>"
  using assms by (simp add: code_cid_values_def Let_def)

text \<open>
  C4. On a large-CID channel \<open>code_cid_values\<close> stores 0 through \<open>first_position\<close>
  (the type octet keeps position 0, which is not written), places the octets that
  \<open>c_encodeSdvl\<close> produces for the CID from position 1 on, and returns 1 plus the
  length that \<open>c_bytesSdvl\<close> reports for the CID.
\<close>

theorem code_cid_values_large_cid:
  assumes "cid_type (medium (compressor context)) \<noteq> SMALL_CID"
  shows "first_position (code_cid_values encodeSdvl bytesSdvl context dest dest_size) = 0
       \<and> dest_after (code_cid_values encodeSdvl bytesSdvl context dest dest_size)
           = store_bytes dest 1 (encodeSdvl (cid context) (- 1))
       \<and> dest_after (code_cid_values encodeSdvl bytesSdvl context dest dest_size) 0 = dest 0
       \<and> (\<forall>i < length (encodeSdvl (cid context) (- 1)).
            dest_after (code_cid_values encodeSdvl bytesSdvl context dest dest_size) (1 + i)
              = encodeSdvl (cid context) (- 1) ! i)
       \<and> returned (code_cid_values encodeSdvl bytesSdvl context dest dest_size)
           = 1 + bytesSdvl (cid context) (- 1)"
  unfolding code_cid_values_large_unfold [OF assms]
  by (simp add: store_bytes_before store_bytes_inside [of _ _ _ 1, simplified])

theorem code_cid_values_large_cid_witness:
  "(let context = \<lparr> cid = 300, compressor = \<lparr> medium = \<lparr> cid_type = LARGE_CID \<rparr> \<rparr> \<rparr>;
        encodeSdvl = (\<lambda>v l. case c_encodeSdvl (unat v) of Some bs \<Rightarrow> bs | None \<Rightarrow> []);
        bytesSdvl = (\<lambda>v l. case c_bytesSdvl (unat v) of Some n \<Rightarrow> word_of_nat n | None \<Rightarrow> 0);
        r = code_cid_values encodeSdvl bytesSdvl context (\<lambda>i. 0) 16
    in cid_type (medium (compressor context)) \<noteq> SMALL_CID
     \<and> encodeSdvl (cid context) (- 1) = [0x81, 0x2C]
     \<and> first_position r = 0
     \<and> dest_after r 0 = 0 \<and> dest_after r 1 = 0x81 \<and> dest_after r 2 = 0x2C
     \<and> dest_after r 3 = 0
     \<and> returned r = 3)"
  using code_cid_values_large_cid
    [of "\<lparr> cid = 300, compressor = \<lparr> medium = \<lparr> cid_type = LARGE_CID \<rparr> \<rparr> \<rparr>"
        "\<lambda>v l. case c_encodeSdvl (unat v) of Some bs \<Rightarrow> bs | None \<Rightarrow> []"
        "\<lambda>v l. case c_bytesSdvl (unat v) of Some n \<Rightarrow> word_of_nat n | None \<Rightarrow> 0"
        "\<lambda>i. 0" 16]
  by (simp add: Let_def c_encodeSdvl_def c_bytesSdvl_def code_cid_values_def store_bytes_def)

section \<open>Properties of the SDVL codec\<close>

lemma bit_below: "(v::nat) < 2 ^ k \<Longrightarrow> bit v n \<Longrightarrow> n < k"
  by (metis bit_take_bit_iff take_bit_nat_eq_self)

lemma below7: "(v::nat) < 128 \<Longrightarrow> bit v n \<Longrightarrow> n < 7"
  using bit_below [of v 7 n] by simp

lemma below14: "(v::nat) < 16384 \<Longrightarrow> bit v n \<Longrightarrow> n < 14"
  using bit_below [of v 14 n] by simp

lemma below21: "(v::nat) < 2097152 \<Longrightarrow> bit v n \<Longrightarrow> n < 21"
  using bit_below [of v 21 n] by simp

lemma below29: "(v::nat) < 536870912 \<Longrightarrow> bit v n \<Longrightarrow> n < 29"
  using bit_below [of v 29 n] by simp

lemma bit_0x80_int: "bit (128 :: int) n \<longleftrightarrow> n = 7"
proof -
  have e: "(128 :: int) = push_bit 7 (mask 1)" by (simp add: mask_eq_exp_minus_1)
  show ?thesis by (subst e) (simp only: bit_push_bit_iff bit_mask_iff, auto)
qed

lemma bit_0xC0_int: "bit (192 :: int) n \<longleftrightarrow> n = 6 \<or> n = 7"
proof -
  have e: "(192 :: int) = push_bit 6 (mask 2)" by (simp add: mask_eq_exp_minus_1)
  show ?thesis by (subst e) (simp only: bit_push_bit_iff bit_mask_iff, auto)
qed

lemma bit_0xE0_int: "bit (224 :: int) n \<longleftrightarrow> n = 5 \<or> n = 6 \<or> n = 7"
proof -
  have e: "(224 :: int) = push_bit 5 (mask 3)" by (simp add: mask_eq_exp_minus_1)
  show ?thesis by (subst e) (simp only: bit_push_bit_iff bit_mask_iff, auto)
qed

lemma bit_0x80_nat: "bit (128 :: nat) n \<longleftrightarrow> n = 7"
proof -
  have e: "(128 :: nat) = push_bit 7 (mask 1)" by (simp add: mask_eq_exp_minus_1)
  show ?thesis by (subst e) (simp only: bit_push_bit_iff bit_mask_iff, auto)
qed

lemma bit_0xC0_nat: "bit (192 :: nat) n \<longleftrightarrow> n = 6 \<or> n = 7"
proof -
  have e: "(192 :: nat) = push_bit 6 (mask 2)" by (simp add: mask_eq_exp_minus_1)
  show ?thesis by (subst e) (simp only: bit_push_bit_iff bit_mask_iff, auto)
qed

lemma bit_0xE0_nat: "bit (224 :: nat) n \<longleftrightarrow> n = 5 \<or> n = 6 \<or> n = 7"
proof -
  have e: "(224 :: nat) = push_bit 5 (mask 3)" by (simp add: mask_eq_exp_minus_1)
  show ?thesis by (subst e) (simp only: bit_push_bit_iff bit_mask_iff, auto)
qed

lemma mask_0x7F: "(0x7F :: u8) = mask 7"
  by (simp add: mask_eq_exp_minus_1)

lemma mask_0x3F: "(0x3F :: u8) = mask 6"
  by (simp add: mask_eq_exp_minus_1)

lemma mask_0x1F: "(0x1F :: u8) = mask 5"
  by (simp add: mask_eq_exp_minus_1)

lemmas octet_bits =
  bit_0x80_int bit_0xC0_int bit_0xE0_int bit_0x80_nat bit_0xC0_nat bit_0xE0_nat

lemma sdvl1_tag: "v < 2 ^ 7 \<Longrightarrow> (word_of_nat v :: u8) AND 0x80 = 0"
  by (rule bit_word_eqI) (auto simp add: bit_simps octet_bits dest: below7)

lemma sdvl1_value: "v < 2 ^ 7 \<Longrightarrow> unat ((word_of_nat v :: u8) AND 0x7F) = v"
  unfolding mask_0x7F
  by (rule bit_eqI) (auto simp add: bit_simps dest: below7)

lemma tag2_not1: "(0x80 OR w :: u8) AND 0x80 \<noteq> 0"
proof
  assume "(0x80 OR w) AND 0x80 = 0"
  then have "bit ((0x80 OR w) AND 0x80 :: u8) 7 = bit (0 :: u8) 7" by simp
  then show False by (simp add: bit_simps octet_bits)
qed

lemma sdvl2_tag: "v < 2 ^ 14 \<Longrightarrow> (0x80 OR word_of_nat (drop_bit 8 v) :: u8) AND 0xC0 = 0x80"
  by (rule bit_word_eqI) (auto simp add: bit_simps octet_bits dest: below14)

lemma sdvl2_value:
  "v < 2 ^ 14 \<Longrightarrow>
   push_bit 8 (unat ((0x80 OR word_of_nat (drop_bit 8 v) :: u8) AND 0x3F)) OR unat (word_of_nat v :: u8) = v"
  unfolding mask_0x3F
  by (rule bit_eqI) (auto simp add: bit_simps octet_bits dest: below14)

lemma tag3_not1: "(0xC0 OR w :: u8) AND 0x80 \<noteq> 0"
proof
  assume "(0xC0 OR w) AND 0x80 = 0"
  then have "bit ((0xC0 OR w) AND 0x80 :: u8) 7 = bit (0 :: u8) 7" by simp
  then show False by (simp add: bit_simps octet_bits)
qed

lemma tag3_not2: "(0xC0 OR w :: u8) AND 0xC0 \<noteq> 0x80"
proof
  assume "(0xC0 OR w) AND 0xC0 = 0x80"
  then have "bit ((0xC0 OR w) AND 0xC0 :: u8) 6 = bit (0x80 :: u8) 6" by simp
  then show False by (simp add: bit_simps octet_bits)
qed

lemma sdvl3_tag: "v < 2 ^ 21 \<Longrightarrow> (0xC0 OR word_of_nat (drop_bit 16 v) :: u8) AND 0xE0 = 0xC0"
  by (rule bit_word_eqI) (auto simp add: bit_simps octet_bits dest: below21)

lemma sdvl3_value:
  "v < 2 ^ 21 \<Longrightarrow>
   push_bit 16 (unat ((0xC0 OR word_of_nat (drop_bit 16 v) :: u8) AND 0x1F))
   OR push_bit 8 (unat (word_of_nat (drop_bit 8 v) :: u8)) OR unat (word_of_nat v :: u8) = v"
  unfolding mask_0x1F
  by (rule bit_eqI) (auto simp add: bit_simps octet_bits dest: below21)

lemma tag4_not1: "(0xE0 OR w :: u8) AND 0x80 \<noteq> 0"
proof
  assume "(0xE0 OR w) AND 0x80 = 0"
  then have "bit ((0xE0 OR w) AND 0x80 :: u8) 7 = bit (0 :: u8) 7" by simp
  then show False by (simp add: bit_simps octet_bits)
qed

lemma tag4_not2: "(0xE0 OR w :: u8) AND 0xC0 \<noteq> 0x80"
proof
  assume "(0xE0 OR w) AND 0xC0 = 0x80"
  then have "bit ((0xE0 OR w) AND 0xC0 :: u8) 6 = bit (0x80 :: u8) 6" by simp
  then show False by (simp add: bit_simps octet_bits)
qed

lemma tag4_not3: "(0xE0 OR w :: u8) AND 0xE0 \<noteq> 0xC0"
proof
  assume "(0xE0 OR w) AND 0xE0 = 0xC0"
  then have "bit ((0xE0 OR w) AND 0xE0 :: u8) 5 = bit (0xC0 :: u8) 5" by simp
  then show False by (simp add: bit_simps octet_bits)
qed

lemma sdvl4_value:
  "v < 2 ^ 29 \<Longrightarrow>
   push_bit 24 (unat ((0xE0 OR word_of_nat (drop_bit 24 v) :: u8) AND 0x1F))
   OR push_bit 16 (unat (word_of_nat (drop_bit 16 v) :: u8))
   OR push_bit 8 (unat (word_of_nat (drop_bit 8 v) :: u8)) OR unat (word_of_nat v :: u8) = v"
  unfolding mask_0x1F
  by (rule bit_eqI) (auto simp add: bit_simps octet_bits dest: below29)

lemma sdvl4_tag: "(0xE0 OR w :: u8) AND 0xE0 = 0xE0"
  by (rule bit_word_eqI) (auto simp add: bit_simps octet_bits)

text \<open>
  C7. SDVL encoding then decoding any integer in \<open>[0, 2^29)\<close> is the identity, also
  when more octets follow the encoding. The encoded length follows the prefix table
  (one octet for a value fitting 7 bits, two for 14, three for 21, four for 29, with
  the leading bits \<open>0\<close>, \<open>10\<close>, \<open>110\<close>, \<open>111\<close>), and the number of octets written
  by \<open>c_encodeSdvl\<close> is the length reported by \<open>c_bytesSdvl\<close> for the same value.
\<close>

theorem sdvl_round_trip:
  assumes "v < 2 ^ 29"
  shows "\<exists>bs. c_encodeSdvl v = Some bs
            \<and> sdvl_decode (bs @ rest) = Some (v, length bs)
            \<and> c_bytesSdvl v = Some (length bs)
            \<and> length bs = (if v < 2 ^ 7 then 1 else if v < 2 ^ 14 then 2
                            else if v < 2 ^ 21 then 3 else 4)
            \<and> (length bs = 1 \<longrightarrow> hd bs AND 0x80 = 0)
            \<and> (length bs = 2 \<longrightarrow> hd bs AND 0xC0 = 0x80)
            \<and> (length bs = 3 \<longrightarrow> hd bs AND 0xE0 = 0xC0)
            \<and> (length bs = 4 \<longrightarrow> hd bs AND 0xE0 = 0xE0)"
proof -
  consider (one) "v < 2 ^ 7"
    | (two) "\<not> v < 2 ^ 7" "v < 2 ^ 14"
    | (three) "\<not> v < 2 ^ 7" "\<not> v < 2 ^ 14" "v < 2 ^ 21"
    | (four) "\<not> v < 2 ^ 7" "\<not> v < 2 ^ 14" "\<not> v < 2 ^ 21" "v < 2 ^ 29"
    using assms by blast
  then show ?thesis
  proof cases
    case one
    have "sdvl_decode ([word_of_nat v] @ rest) = Some (v, 1)"
      using sdvl1_tag [OF one] sdvl1_value [OF one] by (simp add: sdvl_decode_def)
    then show ?thesis
      using one sdvl1_tag [OF one] by (simp add: c_encodeSdvl_def c_bytesSdvl_def)
  next
    case two
    let ?b0 = "0x80 OR word_of_nat (drop_bit 8 v) :: u8"
    have "sdvl_decode ([?b0, word_of_nat v] @ rest) = Some (v, 2)"
      using tag2_not1 [of "word_of_nat (drop_bit 8 v)"] sdvl2_tag [OF two(2)]
        sdvl2_value [OF two(2)]
      by (simp add: sdvl_decode_def)
    then show ?thesis
      using two sdvl2_tag [OF two(2)] by (simp add: c_encodeSdvl_def c_bytesSdvl_def)
  next
    case three
    let ?b0 = "0xC0 OR word_of_nat (drop_bit 16 v) :: u8"
    have "sdvl_decode ([?b0, word_of_nat (drop_bit 8 v), word_of_nat v] @ rest) = Some (v, 3)"
      using tag3_not1 [of "word_of_nat (drop_bit 16 v)"]
        tag3_not2 [of "word_of_nat (drop_bit 16 v)"]
        sdvl3_tag [OF three(3)] sdvl3_value [OF three(3)]
      by (simp add: sdvl_decode_def)
    then show ?thesis
      using three sdvl3_tag [OF three(3)] by (simp add: c_encodeSdvl_def c_bytesSdvl_def)
  next
    case four
    let ?b0 = "0xE0 OR word_of_nat (drop_bit 24 v) :: u8"
    have "sdvl_decode ([?b0, word_of_nat (drop_bit 16 v), word_of_nat (drop_bit 8 v),
             word_of_nat v] @ rest) = Some (v, 4)"
      using tag4_not1 [of "word_of_nat (drop_bit 24 v)"]
        tag4_not2 [of "word_of_nat (drop_bit 24 v)"]
        tag4_not3 [of "word_of_nat (drop_bit 24 v)"]
        sdvl4_value [OF four(4)]
      by (simp add: sdvl_decode_def)
    then show ?thesis
      using four sdvl4_tag [of "word_of_nat (drop_bit 24 v)"]
      by (simp add: c_encodeSdvl_def c_bytesSdvl_def)
  qed
qed

theorem sdvl_round_trip_witness:
  "(300 :: nat) < 2 ^ 29
   \<and> c_encodeSdvl 300 = Some [0x81, 0x2C]
   \<and> sdvl_decode ([0x81, 0x2C] @ [0xFC]) = Some (300, 2)
   \<and> c_bytesSdvl 300 = Some 2
   \<and> (0x81 :: u8) AND 0xC0 = 0x80"
  using sdvl_round_trip [of 300 "[0xFC]"]
  by (simp add: c_encodeSdvl_def c_bytesSdvl_def sdvl_decode_def)

section \<open>Properties of the list decompressor tables\<close>

lemma length_window_entries: "length (window_entries w) = LIST_COMP_WINDOW"
  using window_entries [of w] by simp

lemma length_item_slots: "length (item_slots t) = MAX_ITEM"
  using item_slots [of t] by simp

text \<open>
  C5. The window of past list generations of the list decompressor holds at most 100
  entries: \<open>list_table\<close> is declared with size \<open>LIST_COMP_WINDOW\<close>, which is 100 and so
  at least the minimum of 2.
\<close>

theorem list_table_window_size:
  "length (window_entries (list_table decomp)) = LIST_COMP_WINDOW
   \<and> LIST_COMP_WINDOW = 100
   \<and> 2 \<le> LIST_COMP_WINDOW
   \<and> length (filter (\<lambda>entry. entry \<noteq> None) (window_entries (list_table decomp))) \<le> 100"
proof -
  have "length (filter (\<lambda>entry. entry \<noteq> None) (window_entries (list_table decomp)))
          \<le> length (window_entries (list_table decomp))"
    by (rule length_filter_le)
  then show ?thesis
    by (simp add: length_window_entries LIST_COMP_WINDOW_def)
qed

text \<open>
  C6. \<open>based_table\<close> and \<open>trans_table\<close> of the list decompressor have exactly
  \<open>MAX_ITEM = 15\<close> slots each; the preprocessor test lets the build go on exactly
  when \<open>MAX_ITEM\<close> is greater than 7, and it does for 15, so every index stored on 3
  bits addresses a slot of either table.
\<close>

theorem item_tables_size:
  "length (item_slots (based_table decomp)) = MAX_ITEM
   \<and> length (item_slots (trans_table decomp)) = MAX_ITEM
   \<and> MAX_ITEM = 15
   \<and> MAX_ITEM_check MAX_ITEM = None
   \<and> (MAX_ITEM_check m = None \<longleftrightarrow> 7 < m)
   \<and> unat (index :: 3 word) < length (item_slots (based_table decomp))
   \<and> unat (index :: 3 word) < length (item_slots (trans_table decomp))"
proof -
  have "unat index < 2 ^ 3"
    using unsigned_less [of index, where ?'a = nat] by simp
  then show ?thesis
    by (simp add: length_item_slots MAX_ITEM_def MAX_ITEM_check_def)
qed

end
